theory Spec2Isabelle
  imports Complex_Main
begin

section \<open>TempMon: the temperature monitor of tools/TempMon/tempmon.cpp\<close>

subsection \<open>Values of type long double\<close>

text \<open>
  The program only compares \<^verbatim>\<open>long double\<close> values (\<^verbatim>\<open>==\<close>, \<^verbatim>\<open>!=\<close>, \<^verbatim>\<open><\<close>,
  \<^verbatim>\<open>>\<close>, \<^verbatim>\<open><=\<close>, \<^verbatim>\<open>>=\<close>) and tests them with \<^verbatim>\<open>std::isnan\<close>. IEEE-754 comparison is
  exact: on two finite values it is the comparison of the numbers they denote, and every
  ordered comparison with a NaN is false. A value is therefore modelled as a NaN, an
  infinity or the real number a finite value denotes (the two zeros compare equal and are
  one value here).
\<close>

datatype ldouble = NaN | NegInf | Fin real | PosInf

fun isnan :: "ldouble \<Rightarrow> bool" where
  "isnan NaN = True"
| "isnan _ = False"

text \<open>\<^verbatim>\<open>a == b\<close>: false as soon as one side is a NaN.\<close>

fun ld_eq :: "ldouble \<Rightarrow> ldouble \<Rightarrow> bool" where
  "ld_eq NaN _ = False"
| "ld_eq _ NaN = False"
| "ld_eq NegInf NegInf = True"
| "ld_eq PosInf PosInf = True"
| "ld_eq (Fin a) (Fin b) = (a = b)"
| "ld_eq _ _ = False"

text \<open>\<^verbatim>\<open>a != b\<close> is \<^verbatim>\<open>!(a == b)\<close>: true as soon as one side is a NaN.\<close>

definition ld_ne :: "ldouble \<Rightarrow> ldouble \<Rightarrow> bool" where
  "ld_ne a b = (\<not> ld_eq a b)"

fun ld_lt :: "ldouble \<Rightarrow> ldouble \<Rightarrow> bool" where
  "ld_lt NaN _ = False"
| "ld_lt _ NaN = False"
| "ld_lt (Fin a) (Fin b) = (a < b)"
| "ld_lt NegInf NegInf = False"
| "ld_lt NegInf _ = True"
| "ld_lt (Fin _) PosInf = True"
| "ld_lt _ _ = False"

definition ld_gt :: "ldouble \<Rightarrow> ldouble \<Rightarrow> bool" where
  "ld_gt a b = ld_lt b a"

definition ld_le :: "ldouble \<Rightarrow> ldouble \<Rightarrow> bool" where
  "ld_le a b = (ld_lt a b \<or> ld_eq a b)"

definition ld_ge :: "ldouble \<Rightarrow> ldouble \<Rightarrow> bool" where
  "ld_ge a b = ld_le b a"

subsection \<open>The comparison table\<close>

text \<open>
  \<^verbatim>\<open>TEMPR_COMP_OPS\<close> (lines 29-35) is a \<^verbatim>\<open>std::map\<close> from the operator's name to a
  closure over \<^verbatim>\<open>(curr, target)\<close>. \<^verbatim>\<open>count(k) < 1\<close> is the lookup giving \<open>None\<close>.
\<close>

definition TEMPR_COMP_OPS :: "string \<rightharpoonup> (ldouble \<Rightarrow> ldouble \<Rightarrow> bool)" where
  "TEMPR_COMP_OPS = map_of
     [(''='', \<lambda>curr target. ld_eq curr target),
      (''<'', \<lambda>curr target. ld_lt curr target),
      (''>'', \<lambda>curr target. ld_gt curr target),
      (''<='', \<lambda>curr target. ld_le curr target),
      (''>='', \<lambda>curr target. ld_ge curr target)]"

text \<open>
  \<^verbatim>\<open>TEMPR_COMP_OPS.at(op)(current, threshold)\<close>: \<^verbatim>\<open>at\<close> throws on a name that is not
  in the table, which is \<open>None\<close> here.
\<close>

definition evaluate :: "string \<Rightarrow> ldouble \<Rightarrow> ldouble \<Rightarrow> bool option" where
  "evaluate op current threshold =
     (case TEMPR_COMP_OPS op of None \<Rightarrow> None | Some f \<Rightarrow> Some (f current threshold))"

definition supported_ops :: "string list" where
  "supported_ops = [''='', ''<'', ''>'', ''<='', ''>='']"

subsection \<open>Pins and their configuration\<close>

text \<open>\<^verbatim>\<open>struct GpioPin\<close> (lines 37-46).\<close>

record GpioPin =
  wpi_pin_number :: int
  output_value :: bool
  condition :: string
  active_on_terminate :: bool
  condition_temp_degC :: ldouble
  temp_degC_source :: string
  last_read_temp_degC :: ldouble

text \<open>
  One object of the configuration's JSON array, as \<^verbatim>\<open>parse_config\<close> reads it:
  \<^verbatim>\<open>match_on_terminate\<close> is the only optional member, and \<^verbatim>\<open>GetDouble\<close> gives a finite
  number. The JSON parser itself is a library outside this program.
\<close>

record pin_descr =
  wpi_pin :: int
  output_val :: bool
  condition_str :: string
  temperature_degC :: real
  match_on_terminate :: "bool option"
  temperature_src :: string

text \<open>\<^verbatim>\<open>parse_config\<close> (lines 48-71): one pin per object, in order, last reading 0.0.\<close>

definition parse_pin :: "pin_descr \<Rightarrow> GpioPin" where
  "parse_pin o' =
     \<lparr>wpi_pin_number = wpi_pin o',
      output_value = output_val o',
      condition = condition_str o',
      active_on_terminate =
        (case match_on_terminate o' of None \<Rightarrow> False | Some b \<Rightarrow> b),
      condition_temp_degC = Fin (temperature_degC o'),
      temp_degC_source = temperature_src o',
      last_read_temp_degC = Fin 0\<rparr>"

definition parse_config :: "pin_descr list \<Rightarrow> GpioPin list" where
  "parse_config d = map parse_pin d"

subsection \<open>Reading a temperature\<close>

text \<open>
  What \<^verbatim>\<open>read_temp_degC\<close> (lines 73-84) can meet at a path: a file that does not open;
  a file that opens but at whose start \<^verbatim>\<open>in >> raw_temp\<close> finds no digits to convert (a
  read error, an empty file, text that is no number); a file that opens and starts with
  the decimal integer \<open>n\<close>, of any size.
\<close>

datatype source = CannotOpen | NoDigits | Digits int

definition INT_MAX :: int where
  "INT_MAX = 2147483647"

definition INT_MIN :: int where
  "INT_MIN = - 2147483648"

text \<open>
  The value the 32-bit \<^verbatim>\<open>raw_temp\<close> holds after \<^verbatim>\<open>int raw_temp = 0; in >> raw_temp;\<close>.
  Without digits the extraction fails and stores 0; digits out of the range of \<^verbatim>\<open>int\<close>
  make it fail as well and store the nearest end of the range.
\<close>

fun raw_temp_of :: "source \<Rightarrow> int" where
  "raw_temp_of (Digits n) =
     (if INT_MAX < n then INT_MAX else if n < INT_MIN then INT_MIN else n)"
| "raw_temp_of _ = 0"

text \<open>
  \<^verbatim>\<open>raw_temp / 1000.0\<close> is a division of doubles: \<^verbatim>\<open>raw_temp\<close> and 1000 are doubles as
  they are, and the result is the double nearest the quotient, the one with the even
  significand when two are equally near. \<open>normalise\<close> doubles \<open>a = \<bar>raw_temp\<bar>\<close> until
  \<open>a / 1000\<close> has reached \<open>2 ^ 52\<close>, counting the doublings in \<open>k\<close>; then \<open>a / 1000\<close>
  rounded to an integer is the 53-bit significand and \<open>2 ^ k\<close> the scale. (For a 32-bit
  \<^verbatim>\<open>raw_temp\<close> the quotient is below \<open>2 ^ 22\<close> and, unless 0, at least \<open>1 / 1000\<close>: no
  overflow, nothing subnormal.) The conversion of the result to \<^verbatim>\<open>long double\<close> is exact.
  This is the arithmetic of the ARM boards wiringPi runs on, where a \<^verbatim>\<open>double\<close> expression
  is evaluated in \<^verbatim>\<open>double\<close>.
\<close>

function normalise :: "nat \<Rightarrow> nat \<Rightarrow> nat \<times> nat" where
  "normalise a k =
     (if a = 0 \<or> 1000 * 2 ^ 52 \<le> a then (a, k) else normalise (2 * a) (k + 1))"
  by pat_completeness auto
termination
  by (relation "measure (\<lambda>(a, k). 1000 * 2 ^ 52 - a)") auto

declare normalise.simps [simp del]

definition round_half_even :: "nat \<Rightarrow> nat \<Rightarrow> nat" where
  "round_half_even a b =
     (let q = a div b; r = a mod b
      in if 2 * r < b then q
         else if b < 2 * r then q + 1
         else if even q then q else q + 1)"

definition div_1000 :: "int \<Rightarrow> real" where
  "div_1000 v =
     (case normalise (nat \<bar>v\<bar>) 0 of
        (a, k) \<Rightarrow>
          (if v < 0 then - 1 else 1) * real (round_half_even a 1000) / 2 ^ k)"

text \<open>
  The function takes the path; the files are the first argument here. The stream's state
  after the extraction is never tested.
\<close>

definition read_temp_degC :: "(string \<Rightarrow> source) \<Rightarrow> string \<Rightarrow> ldouble" where
  "read_temp_degC files src_file_path =
     (if files src_file_path = CannotOpen then NaN
      else Fin (div_1000 (raw_temp_of (files src_file_path))))"

subsection \<open>What the program does to the outside\<close>

datatype event =
    LogStarted
  | LogCannotOpenConfig
  | LogNoConditions
  | WiringPiSetup
  | PinMode int
  | TempRead string
  | LogCannotRead int string
  | LogNotSupported int string
  | DigitalRead int
  | DigitalWrite int int
  | LogChange ldouble string ldouble int int bool
  | Sleep200ms
  | LogStopped

text \<open>
  The body of the loop over the pins (lines 141-178) for one pin, after the temperature
  has been read: \<open>temp_degC\<close> is the reading, \<open>shutting_down\<close> is what
  \<^verbatim>\<open>keep_running == 0\<close> gives at line 159, \<open>levels\<close> is the level \<^verbatim>\<open>digitalRead\<close>
  returns for each pin number. The result is the pin, the levels and the events of this
  pin in order. Each \<^verbatim>\<open>continue\<close> leaves the body before line 178.
\<close>

definition pin_body ::
  "ldouble \<Rightarrow> bool \<Rightarrow> GpioPin \<Rightarrow> (int \<Rightarrow> int) \<Rightarrow> GpioPin \<times> (int \<Rightarrow> int) \<times> event list" where
  "pin_body temp_degC shutting_down p levels =
     (if ld_ne (last_read_temp_degC p) temp_degC \<and> isnan temp_degC
      then (p, levels, [LogCannotRead (wpi_pin_number p) (temp_degC_source p)])
      else case TEMPR_COMP_OPS (condition p) of
        None \<Rightarrow> (p, levels, [LogNotSupported (wpi_pin_number p) (condition p)])
      | Some f \<Rightarrow>
         (let terminate_match = (active_on_terminate p \<and> shutting_down)
          in if terminate_match \<or>
                (ld_ne (last_read_temp_degC p) temp_degC \<and> f temp_degC (condition_temp_degC p))
             then
               (let outp_val = (if output_value p then 1 else 0);
                    curr_outp_val = levels (wpi_pin_number p)
                in if curr_outp_val \<noteq> outp_val
                   then (p\<lparr>last_read_temp_degC := temp_degC\<rparr>,
                         levels(wpi_pin_number p := outp_val),
                         [PinMode (wpi_pin_number p), DigitalRead (wpi_pin_number p),
                          DigitalWrite (wpi_pin_number p) outp_val,
                          LogChange temp_degC (condition p) (condition_temp_degC p)
                            (wpi_pin_number p) outp_val terminate_match])
                   else (p\<lparr>last_read_temp_degC := temp_degC\<rparr>, levels,
                         [PinMode (wpi_pin_number p), DigitalRead (wpi_pin_number p)]))
             else (p\<lparr>last_read_temp_degC := temp_degC\<rparr>, levels, [])))"

text \<open>The writes among a list of events.\<close>

fun is_write :: "event \<Rightarrow> bool" where
  "is_write (DigitalWrite _ _) = True"
| "is_write _ = False"

definition writes :: "event list \<Rightarrow> event list" where
  "writes evs = filter is_write evs"

subsection \<open>The outside: the signal and the files\<close>

text \<open>
  The program meets the outside where it reads \<^verbatim>\<open>keep_running\<close>, opens a temperature
  file or sleeps. These points are numbered in the order the program reaches them (the
  clock of the \<open>world\<close> below). The handler installed at lines 119-126 only ever stores 0
  into \<^verbatim>\<open>keep_running\<close>, so the flag is 1 up to the point \<open>signal_at\<close> where the first
  signal has been handled and 0 from there on; \<open>None\<close> is a run in which no signal comes.
  The files may change from one point to the next.
\<close>

record env =
  signal_at :: "nat option"
  files_at :: "nat \<Rightarrow> string \<Rightarrow> source"

definition keep_running :: "env \<Rightarrow> nat \<Rightarrow> int" where
  "keep_running e t = (case signal_at e of None \<Rightarrow> 1 | Some s \<Rightarrow> if t < s then 1 else 0)"

record world =
  pin_levels :: "int \<Rightarrow> int"
  trace :: "event list"
  clock :: nat

subsection \<open>The control loop\<close>

text \<open>One pin in the loop of lines 137-179: line 139, then the body.\<close>

definition pin_iter :: "env \<Rightarrow> GpioPin \<Rightarrow> world \<Rightarrow> GpioPin \<times> world" where
  "pin_iter e p w =
     (let temp_degC = read_temp_degC (files_at e (clock w)) (temp_degC_source p);
          shutting_down = (keep_running e (Suc (clock w)) = 0);
          (p', lv, evs) = pin_body temp_degC shutting_down p (pin_levels w)
      in (p', \<lparr>pin_levels = lv,
               trace = trace w @ TempRead (temp_degC_source p) # evs,
               clock = clock w + 2\<rparr>))"

fun for_pins :: "env \<Rightarrow> GpioPin list \<Rightarrow> world \<Rightarrow> GpioPin list \<times> world" where
  "for_pins e [] w = ([], w)"
| "for_pins e (p # ps) w =
     (let (p', w') = pin_iter e p w;
          (ps', w'') = for_pins e ps w'
      in (p' # ps', w''))"

text \<open>
  Lines 181-183: up to ten sleeps of 200 ms, the flag read before each one and once more
  when \<^verbatim>\<open>c\<close> has not reached 10.
\<close>

function sleep_loop :: "env \<Rightarrow> nat \<Rightarrow> world \<Rightarrow> world" where
  "sleep_loop e c w =
     (if keep_running e (clock w) = 1 \<and> c < 10
      then sleep_loop e (Suc c) (w\<lparr>trace := trace w @ [Sleep200ms], clock := clock w + 2\<rparr>)
      else w\<lparr>clock := Suc (clock w)\<rparr>)"
  by pat_completeness auto
termination
  by (relation "measure (\<lambda>(e, c, w). 10 - c)") auto

declare sleep_loop.simps [simp del]

text \<open>
  The \<^verbatim>\<open>do ... while (!break_loop)\<close> of lines 131-185. The loop runs for as long as no
  signal comes, so it is given fuel: \<open>None\<close> is the loop still running when the fuel is
  spent. \<^verbatim>\<open>break_loop\<close> is false until the iteration that sets it, which is the last.
\<close>

fun do_loop :: "nat \<Rightarrow> env \<Rightarrow> GpioPin list \<Rightarrow> world \<Rightarrow> (GpioPin list \<times> world) option" where
  "do_loop 0 e pin_outputs w = None"
| "do_loop (Suc n) e pin_outputs w =
     (let break_loop = (keep_running e (clock w) = 0);
          (pin_outputs', w') = for_pins e pin_outputs (w\<lparr>clock := Suc (clock w)\<rparr>);
          w'' = sleep_loop e 0 w'
      in if break_loop then Some (pin_outputs', w'') else do_loop n e pin_outputs' w'')"

text \<open>
  Lines 129-188, from the loop to the end of \<^verbatim>\<open>main\<close>: the exit status and the events.
\<close>

definition run_loop :: "nat \<Rightarrow> env \<Rightarrow> GpioPin list \<Rightarrow> world \<Rightarrow> (int \<times> event list) option" where
  "run_loop fuel e pin_outputs w =
     (case do_loop fuel e pin_outputs w of
        None \<Rightarrow> None
      | Some (pin_outputs', w') \<Rightarrow> Some (0, trace w' @ [LogStopped]))"

text \<open>
  \<^verbatim>\<open>main\<close> (lines 86-188). \<open>config_file\<close> is \<open>None\<close> when the file does not open and
  the JSON array otherwise; \<open>levels\<close> are the levels of the pins when the program starts.
\<close>

definition main ::
  "nat \<Rightarrow> env \<Rightarrow> pin_descr list option \<Rightarrow> (int \<Rightarrow> int) \<Rightarrow> (int \<times> event list) option" where
  "main fuel e config_file levels =
     (case config_file of
        None \<Rightarrow> Some (1, [LogStarted, LogCannotOpenConfig])
      | Some d \<Rightarrow>
         (let pin_outputs = parse_config d
          in if length pin_outputs = 0 then Some (2, [LogStarted, LogNoConditions])
             else run_loop fuel e pin_outputs
                    \<lparr>pin_levels = levels,
                     trace = [LogStarted, WiringPiSetup] @
                             map (\<lambda>p. PinMode (wpi_pin_number p)) pin_outputs,
                     clock = 0\<rparr>))"

text \<open>The temperature reads among a list of events.\<close>

fun is_temp_read :: "event \<Rightarrow> bool" where
  "is_temp_read (TempRead _) = True"
| "is_temp_read _ = False"

text \<open>
  What the specification calls an I/O error while reading the source, in the terms of
  \<open>source\<close>: the file does not open, or no integer can be read from it.
\<close>

fun spec_io_error :: "source \<Rightarrow> bool" where
  "spec_io_error (Digits _) = False"
| "spec_io_error _ = True"

text \<open>
  What the specification calls a full tick with \<open>shuttingDown = true\<close>: every configured
  pin in turn has its temperature read and its body run with shutting down true.
\<close>

fun tick_shutting_down ::
  "(nat \<Rightarrow> string \<Rightarrow> source) \<Rightarrow> GpioPin list \<Rightarrow> world \<Rightarrow> GpioPin list \<times> world" where
  "tick_shutting_down files [] w = ([], w)"
| "tick_shutting_down files (p # ps) w =
     (case pin_body (read_temp_degC (files (clock w)) (temp_degC_source p)) True p
             (pin_levels w) of
        (p', lv, evs) \<Rightarrow>
          (case tick_shutting_down files ps
                  \<lparr>pin_levels = lv,
                   trace = trace w @ TempRead (temp_degC_source p) # evs,
                   clock = clock w + 2\<rparr> of
             (ps', w') \<Rightarrow> (p' # ps', w')))"

subsection \<open>Concrete configurations, files and levels\<close>

text \<open>The pin of the specification's first scenario: pin 7 goes high above 50 degrees.\<close>

definition scenario_pin :: pin_descr where
  "scenario_pin =
     \<lparr>wpi_pin = 7, output_val = True, condition_str = ''>'', temperature_degC = 50,
      match_on_terminate = None, temperature_src = ''A''\<rparr>"

text \<open>The pin of its fifth scenario: pin 7 goes low when the program is told to stop.\<close>

definition terminate_pin :: pin_descr where
  "terminate_pin =
     \<lparr>wpi_pin = 7, output_val = False, condition_str = ''>'', temperature_degC = 50,
      match_on_terminate = Some True, temperature_src = ''A''\<rparr>"

text \<open>The same for pin 8.\<close>

definition terminate_pin8 :: pin_descr where
  "terminate_pin8 =
     \<lparr>wpi_pin = 8, output_val = False, condition_str = ''>'', temperature_degC = 50,
      match_on_terminate = Some True, temperature_src = ''B''\<rparr>"

definition all_low :: "int \<Rightarrow> int" where
  "all_low = (\<lambda>pin. 0)"

definition all_high :: "int \<Rightarrow> int" where
  "all_high = (\<lambda>pin. 1)"

definition no_file :: "string \<Rightarrow> source" where
  "no_file = (\<lambda>path. CannotOpen)"

definition file_100 :: "string \<Rightarrow> source" where
  "file_100 = (\<lambda>path. Digits 100)"

definition unreadable_file :: "string \<Rightarrow> source" where
  "unreadable_file = (\<lambda>path. NoDigits)"

text \<open>No temperature file ever opens; the signal comes during the second wait.\<close>

definition never_opens :: env where
  "never_opens = \<lparr>signal_at = Some 30, files_at = (\<lambda>t. no_file)\<rparr>"

text \<open>The signal has come before the loop starts; every file reads 45000.\<close>

definition stopping :: env where
  "stopping = \<lparr>signal_at = Some 0, files_at = (\<lambda>t path. Digits 45000)\<rparr>"

text \<open>
  The signal comes during the first wait, after its first sleep; every file reads 45000.
\<close>

definition signal_in_wait :: env where
  "signal_in_wait = \<lparr>signal_at = Some 6, files_at = (\<lambda>t path. Digits 45000)\<rparr>"

definition start_high :: world where
  "start_high = \<lparr>pin_levels = all_high, trace = [], clock = 0\<rparr>"

subsection \<open>The comparison table: results\<close>

lemma TEMPR_COMP_OPS_supported:
  "TEMPR_COMP_OPS op \<noteq> None \<longleftrightarrow> op \<in> set supported_ops"
  by (simp add: TEMPR_COMP_OPS_def supported_ops_def)

lemma ld_lt_NaN_right [simp]: "ld_lt x NaN = False"
  by (cases x) simp_all

lemma ld_eq_NaN_right [simp]: "ld_eq x NaN = False"
  by (cases x) simp_all

lemma ld_ne_NaN [simp]: "ld_ne x NaN" "ld_ne NaN x"
  by (simp_all add: ld_ne_def)

lemma isnan_iff: "isnan x \<longleftrightarrow> x = NaN"
  by (cases x) simp_all

text \<open>
  C2. For each of the five operators \<open>=\<close>, \<open><\<close>, \<open>>\<close>, \<open><=\<close>, \<open>>=\<close>, \<open>evaluate\<close> on two
  finite values is the comparison of the two numbers, and it is false as soon as the
  current value or the threshold is the NaN (the failed-read marker), also for \<open>=\<close>.
\<close>

theorem evaluate_semantics:
  "evaluate ''='' (Fin a) (Fin b) = Some (a = b) \<and>
   evaluate ''<'' (Fin a) (Fin b) = Some (a < b) \<and>
   evaluate ''>'' (Fin a) (Fin b) = Some (a > b) \<and>
   evaluate ''<='' (Fin a) (Fin b) = Some (a \<le> b) \<and>
   evaluate ''>='' (Fin a) (Fin b) = Some (a \<ge> b) \<and>
   (\<forall>op \<in> set supported_ops.
      evaluate op NaN y = Some False \<and> evaluate op x NaN = Some False)"
  by (auto simp: evaluate_def TEMPR_COMP_OPS_def supported_ops_def
        ld_gt_def ld_le_def ld_ge_def)

theorem evaluate_semantics_witness:
  "evaluate ''<='' (Fin 45) (Fin 50) = Some True \<and>
   evaluate ''='' (Fin 50) (Fin 50) = Some True \<and>
   ''='' \<in> set supported_ops \<and>
   evaluate ''='' NaN NaN = Some False \<and> evaluate ''='' (Fin 50) NaN = Some False"
  using evaluate_semantics [of 45 50 NaN "Fin 50"] evaluate_semantics [of 50 50 NaN "Fin 50"]
  by (simp add: supported_ops_def)

subsection \<open>One pin in one tick\<close>

lemma ld_eq_sym: "ld_eq a b = ld_eq b a"
  by (cases a; cases b) auto

lemma ld_eq_refl: "x \<noteq> NaN \<Longrightarrow> ld_eq x x"
  by (cases x) auto

lemma pin_body_cannot_read:
  "pin_body NaN sd p lv = (p, lv, [LogCannotRead (wpi_pin_number p) (temp_degC_source p)])"
  by (simp add: pin_body_def)

lemma pin_body_not_supported:
  "\<not> isnan t \<Longrightarrow> TEMPR_COMP_OPS (condition p) = None \<Longrightarrow>
   pin_body t sd p lv = (p, lv, [LogNotSupported (wpi_pin_number p) (condition p)])"
  by (simp add: pin_body_def)

lemma parse_scenario_pin:
  "parse_pin scenario_pin =
     \<lparr>wpi_pin_number = 7, output_value = True, condition = ''>'',
      active_on_terminate = False, condition_temp_degC = Fin 50,
      temp_degC_source = ''A'', last_read_temp_degC = Fin 0\<rparr>"
  by (simp add: parse_pin_def scenario_pin_def)

lemma parse_terminate_pin:
  "parse_pin terminate_pin =
     \<lparr>wpi_pin_number = 7, output_value = False, condition = ''>'',
      active_on_terminate = True, condition_temp_degC = Fin 50,
      temp_degC_source = ''A'', last_read_temp_degC = Fin 0\<rparr>"
  by (simp add: parse_pin_def terminate_pin_def)

lemma all_low_apply: "all_low pin = 0"
  by (simp add: all_low_def)

lemma all_high_apply: "all_high pin = 1"
  by (simp add: all_high_def)

lemma TEMPR_COMP_OPS_gt: "TEMPR_COMP_OPS ''>'' = Some (\<lambda>curr target. ld_gt curr target)"
  by (simp add: TEMPR_COMP_OPS_def)

lemma TEMPR_COMP_OPS_neq: "TEMPR_COMP_OPS ''!='' = None"
  by (simp add: TEMPR_COMP_OPS_def)




text \<open>
  C3. The claim is that over consecutive ticks whose reads all fail at most one read
  failure is reported for the pin. The program reports one on every such tick: with the
  first scenario's pin and a file that never opens, the run below has three ticks (the
  signal comes during the second wait) and three reports.
\<close>

theorem read_failure_reported_every_tick:
  "main 3 never_opens (Some [scenario_pin]) all_low =
   Some (0, [LogStarted, WiringPiSetup, PinMode 7,
       TempRead ''A'', LogCannotRead 7 ''A'',
       Sleep200ms, Sleep200ms, Sleep200ms, Sleep200ms, Sleep200ms,
       Sleep200ms, Sleep200ms, Sleep200ms, Sleep200ms, Sleep200ms,
       TempRead ''A'', LogCannotRead 7 ''A'',
       Sleep200ms, Sleep200ms,
       TempRead ''A'', LogCannotRead 7 ''A'',
       LogStopped])"
  by (simp add: main_def run_loop_def parse_config_def parse_scenario_pin
        pin_iter_def pin_body_cannot_read read_temp_degC_def keep_running_def
        sleep_loop.simps numeral_3_eq_3 never_opens_def no_file_def)

text \<open>
  C4. The body of a pin writes to the pin at most once; when it writes, the level read
  back differed from the pin's output value, the write is of that value and the pin
  reads that value afterwards; when the level read back is already the output value
  nothing is written; and without a write the levels are unchanged.
\<close>

theorem write_only_when_level_differs:
  assumes "pin_body t sd p lv = (p', lv', evs)"
  shows "length (writes evs) \<le> 1 \<and>
    (writes evs \<noteq> [] \<longrightarrow>
       lv (wpi_pin_number p) \<noteq> (if output_value p then 1 else 0) \<and>
       writes evs = [DigitalWrite (wpi_pin_number p) (if output_value p then 1 else 0)] \<and>
       lv' = lv(wpi_pin_number p := (if output_value p then 1 else 0))) \<and>
    (lv (wpi_pin_number p) = (if output_value p then 1 else 0) \<longrightarrow> writes evs = []) \<and>
    (writes evs = [] \<longrightarrow> lv' = lv)"
  using assms
  by (auto simp: pin_body_def writes_def Let_def split: option.splits if_splits)

theorem write_only_when_level_differs_witness:
  "pin_body (Fin 55) False (parse_pin scenario_pin) all_low =
     ((parse_pin scenario_pin)\<lparr>last_read_temp_degC := Fin 55\<rparr>, all_low(7 := 1),
      [PinMode 7, DigitalRead 7, DigitalWrite 7 1,
       LogChange (Fin 55) ''>'' (Fin 50) 7 1 False]) \<and>
   all_low 7 \<noteq> 1 \<and>
   pin_body (Fin 55) False (parse_pin scenario_pin) (all_low(7 := 1)) =
     ((parse_pin scenario_pin)\<lparr>last_read_temp_degC := Fin 55\<rparr>, all_low(7 := 1),
      [PinMode 7, DigitalRead 7])"
proof -
  have h1: "pin_body (Fin 55) False (parse_pin scenario_pin) all_low =
     ((parse_pin scenario_pin)\<lparr>last_read_temp_degC := Fin 55\<rparr>, all_low(7 := 1),
      [PinMode 7, DigitalRead 7, DigitalWrite 7 1,
       LogChange (Fin 55) ''>'' (Fin 50) 7 1 False])"
    by (simp add: pin_body_def parse_scenario_pin TEMPR_COMP_OPS_gt ld_ne_def ld_gt_def
          all_low_apply)
  have h2: "pin_body (Fin 55) False (parse_pin scenario_pin) (all_low(7 := 1)) =
     ((parse_pin scenario_pin)\<lparr>last_read_temp_degC := Fin 55\<rparr>, all_low(7 := 1),
      [PinMode 7, DigitalRead 7])"
    by (simp add: pin_body_def parse_scenario_pin TEMPR_COMP_OPS_gt ld_ne_def ld_gt_def
          all_low_apply)
  have h3: "all_low 7 \<noteq> 1"
    using write_only_when_level_differs [OF h1] by (simp add: writes_def parse_scenario_pin)
  have h4: "writes [PinMode 7, DigitalRead 7] = []"
    using write_only_when_level_differs [OF h2] by (simp add: parse_scenario_pin)
  from h1 h2 h3 show ?thesis by blast
qed

text \<open>
  C5, as the claim states it, fails. The fifth scenario's pin (match on terminate, output
  value low) on a tick with the program shutting down, the pin high and the read failing:
  the body reports the failed read and leaves; nothing is written and the pin stays high.
\<close>

theorem terminate_not_forced_counterexample:
  "active_on_terminate (parse_pin terminate_pin) \<and>
   pin_body NaN True (parse_pin terminate_pin) all_high =
     (parse_pin terminate_pin, all_high, [LogCannotRead 7 ''A'']) \<and>
   all_high 7 \<noteq> (if output_value (parse_pin terminate_pin) then 1 else 0)"
  by (simp add: pin_body_cannot_read parse_terminate_pin all_high_apply)

text \<open>
  C5, amended. For a pin with match on terminate, on a tick with the program shutting
  down, whose reading is not the failed-read marker and whose operator is in the table:
  after the body the pin is at its output value, whatever the comparison with the
  threshold gives, and a pin that was not at that value has been written exactly once.
\<close>

theorem terminate_forces_output:
  assumes "active_on_terminate p" and "\<not> isnan t" and "TEMPR_COMP_OPS (condition p) \<noteq> None"
    and "pin_body t True p lv = (p', lv', evs)"
  shows "lv' (wpi_pin_number p) = (if output_value p then 1 else 0) \<and>
    (lv (wpi_pin_number p) \<noteq> (if output_value p then 1 else 0) \<longrightarrow>
       writes evs = [DigitalWrite (wpi_pin_number p) (if output_value p then 1 else 0)])"
  using assms
  by (auto simp: pin_body_def writes_def Let_def split: option.splits if_splits)

theorem terminate_forces_output_witness:
  "active_on_terminate (parse_pin terminate_pin) \<and> \<not> isnan (Fin 45) \<and>
   TEMPR_COMP_OPS (condition (parse_pin terminate_pin)) \<noteq> None \<and>
   evaluate ''>'' (Fin 45) (Fin 50) = Some False \<and>
   pin_body (Fin 45) True (parse_pin terminate_pin) all_high =
     ((parse_pin terminate_pin)\<lparr>last_read_temp_degC := Fin 45\<rparr>, all_high(7 := 0),
      [PinMode 7, DigitalRead 7, DigitalWrite 7 0,
       LogChange (Fin 45) ''>'' (Fin 50) 7 0 True]) \<and>
   (all_high(7 := 0)) 7 = 0"
proof -
  have a: "active_on_terminate (parse_pin terminate_pin)"
    by (simp add: parse_terminate_pin)
  have b: "\<not> isnan (Fin 45)" by simp
  have c: "TEMPR_COMP_OPS (condition (parse_pin terminate_pin)) \<noteq> None"
    by (simp add: parse_terminate_pin TEMPR_COMP_OPS_gt)
  have d: "pin_body (Fin 45) True (parse_pin terminate_pin) all_high =
     ((parse_pin terminate_pin)\<lparr>last_read_temp_degC := Fin 45\<rparr>, all_high(7 := 0),
      [PinMode 7, DigitalRead 7, DigitalWrite 7 0,
       LogChange (Fin 45) ''>'' (Fin 50) 7 0 True])"
    by (simp add: pin_body_def parse_terminate_pin TEMPR_COMP_OPS_gt all_high_apply)
  have e: "evaluate ''>'' (Fin 45) (Fin 50) = Some False"
    by (simp add: evaluate_def TEMPR_COMP_OPS_gt ld_gt_def)
  have f: "(all_high(7 := 0)) 7 = 0"
    using terminate_forces_output [OF a b c d] by (simp add: parse_terminate_pin)
  from a b c d e f show ?thesis by blast
qed

text \<open>
  C6. On a tick where the terminate match does not apply (the pin has no match on
  terminate, or the program is not shutting down), a reading equal to the pin's last
  reading writes nothing and leaves the levels as they are, whatever the comparison with
  the threshold gives and whatever the pin's level is. Equal is taken both ways: equal
  as \<^verbatim>\<open>==\<close> compares, or the same value (which makes two failed-read markers equal).
\<close>

lemma pin_body_unchanged_reading:
  assumes "\<not> (active_on_terminate p \<and> sd)"
    and "isnan t \<or> \<not> ld_ne (last_read_temp_degC p) t"
    and "pin_body t sd p lv = (p', lv', evs)"
  shows "writes evs = [] \<and> lv' = lv"
  using assms
  by (auto simp: pin_body_def writes_def Let_def isnan_iff split: option.splits if_splits)

lemma same_reading_not_changed:
  "ld_eq t l \<or> t = l \<Longrightarrow> isnan t \<or> \<not> ld_ne l t"
  by (cases "t = NaN") (auto simp: ld_ne_def ld_eq_sym ld_eq_refl)

theorem unchanged_reading_no_write:
  assumes "\<not> (active_on_terminate p \<and> sd)"
    and "ld_eq t (last_read_temp_degC p) \<or> t = last_read_temp_degC p"
    and "pin_body t sd p lv = (p', lv', evs)"
  shows "writes evs = [] \<and> lv' = lv"
  using pin_body_unchanged_reading [OF assms(1) same_reading_not_changed [OF assms(2)] assms(3)] .

theorem unchanged_reading_no_write_witness:
  "\<not> (active_on_terminate ((parse_pin scenario_pin)\<lparr>last_read_temp_degC := Fin 55\<rparr>) \<and> False) \<and>
   ld_eq (Fin 55) (last_read_temp_degC ((parse_pin scenario_pin)\<lparr>last_read_temp_degC := Fin 55\<rparr>)) \<and>
   evaluate ''>'' (Fin 55) (Fin 50) = Some True \<and>
   all_low 7 \<noteq> 1 \<and>
   pin_body (Fin 55) False ((parse_pin scenario_pin)\<lparr>last_read_temp_degC := Fin 55\<rparr>) all_low =
     ((parse_pin scenario_pin)\<lparr>last_read_temp_degC := Fin 55\<rparr>, all_low, []) \<and>
   writes [] = []"
proof -
  let ?p = "(parse_pin scenario_pin)\<lparr>last_read_temp_degC := Fin 55\<rparr>"
  have a: "\<not> (active_on_terminate ?p \<and> False)" by simp
  have b: "ld_eq (Fin 55) (last_read_temp_degC ?p) \<or> Fin 55 = last_read_temp_degC ?p"
    by simp
  have c: "pin_body (Fin 55) False ?p all_low = (?p, all_low, [])"
    by (simp add: pin_body_def parse_scenario_pin TEMPR_COMP_OPS_gt ld_ne_def)
  have b': "ld_eq (Fin 55) (last_read_temp_degC ?p)" by simp
  have d: "evaluate ''>'' (Fin 55) (Fin 50) = Some True"
    by (simp add: evaluate_def TEMPR_COMP_OPS_gt ld_gt_def)
  have e: "all_low 7 \<noteq> 1" by (simp add: all_low_apply)
  have f: "writes [] = []"
    using unchanged_reading_no_write [OF a b c] by simp
  from a b' c d e f show ?thesis by blast
qed

text \<open>
  C10. On a tick with the program shutting down, for a pin with match on terminate whose
  read gives the failed-read marker or whose operator is not in the table, the body
  leaves at the report: nothing is written, the levels and the pin are unchanged.
\<close>

theorem error_path_preempts_terminate:
  assumes "active_on_terminate p"
    and "isnan t \<or> TEMPR_COMP_OPS (condition p) = None"
    and "pin_body t True p lv = (p', lv', evs)"
  shows "writes evs = [] \<and> lv' = lv \<and> p' = p"
  using assms
  by (auto simp: pin_body_def writes_def Let_def isnan_iff split: option.splits if_splits)

theorem error_path_preempts_terminate_witness:
  "active_on_terminate ((parse_pin terminate_pin)\<lparr>condition := ''!=''\<rparr>) \<and>
   TEMPR_COMP_OPS (condition ((parse_pin terminate_pin)\<lparr>condition := ''!=''\<rparr>)) = None \<and>
   pin_body (Fin 45) True ((parse_pin terminate_pin)\<lparr>condition := ''!=''\<rparr>) all_high =
     ((parse_pin terminate_pin)\<lparr>condition := ''!=''\<rparr>, all_high, [LogNotSupported 7 ''!='']) \<and>
   writes [LogNotSupported 7 ''!=''] = [] \<and>
   all_high 7 \<noteq> (if output_value ((parse_pin terminate_pin)\<lparr>condition := ''!=''\<rparr>) then 1 else 0)"
proof -
  let ?p = "(parse_pin terminate_pin)\<lparr>condition := ''!=''\<rparr>"
  have a: "active_on_terminate ?p" by (simp add: parse_terminate_pin)
  have n: "TEMPR_COMP_OPS (condition ?p) = None" by (simp add: TEMPR_COMP_OPS_neq)
  then have b: "isnan (Fin 45) \<or> TEMPR_COMP_OPS (condition ?p) = None" by simp
  have c: "pin_body (Fin 45) True ?p all_high = (?p, all_high, [LogNotSupported 7 ''!=''])"
    using pin_body_not_supported [of "Fin 45" ?p True all_high] n
    by (simp add: parse_terminate_pin)
  have d: "writes [LogNotSupported 7 ''!=''] = []"
    using error_path_preempts_terminate [OF a b c] by simp
  have e: "all_high 7 \<noteq> (if output_value ?p then 1 else 0)"
    by (simp add: parse_terminate_pin all_high_apply)
  from a n c d e show ?thesis by blast
qed

subsection \<open>Reading a temperature: results\<close>

lemma normalise_scaled:
  "normalise a k = (a', k') \<Longrightarrow> k \<le> k' \<and> a' = a * 2 ^ (k' - k)"
proof (induction a k rule: normalise.induct)
  case (1 a k)
  show ?case
  proof (cases "a = 0 \<or> 1000 * 2 ^ 52 \<le> a")
    case True
    with "1.prems" show ?thesis by (simp add: normalise.simps)
  next
    case False
    with "1.prems" have "normalise (2 * a) (k + 1) = (a', k')"
      by (simp add: normalise.simps)
    from "1.IH" [OF False this] have "k + 1 \<le> k'" and e: "a' = 2 * a * 2 ^ (k' - (k + 1))"
      by simp_all
    then have "k' - k = Suc (k' - (k + 1))" by simp
    with e \<open>k + 1 \<le> k'\<close> show ?thesis by simp
  qed
qed

lemma normalise_range:
  "normalise a k = (a', k') \<Longrightarrow> 0 < a \<Longrightarrow> a < 1000 * 2 ^ 53 \<Longrightarrow>
   1000 * 2 ^ 52 \<le> a' \<and> a' < 1000 * 2 ^ 53"
proof (induction a k rule: normalise.induct)
  case (1 a k)
  show ?case
  proof (cases "a = 0 \<or> 1000 * 2 ^ 52 \<le> a")
    case True
    with "1.prems" show ?thesis by (simp add: normalise.simps)
  next
    case False
    with "1.prems" have n: "normalise (2 * a) (k + 1) = (a', k')"
      by (simp add: normalise.simps)
    from False "1.prems" have "0 < 2 * a" "2 * a < 1000 * 2 ^ 53" by simp_all
    from "1.IH" [OF False n this] show ?thesis .
  qed
qed

lemma round_half_even_near:
  assumes "0 < b"
  shows "\<bar>real (round_half_even a b) - real a / real b\<bar> \<le> 1 / 2"
proof -
  let ?q = "a div b" and ?r = "a mod b"
  have a: "real a = real ?q * real b + real ?r"
    by (metis div_mult_mod_eq of_nat_add of_nat_mult)
  have d: "real a / real b = real ?q + real ?r / real b"
    using assms by (simp add: a field_simps)
  have r: "?r < b" using assms by simp
  have b: "0 < real b" using assms by simp
  consider "2 * ?r < b" | "b < 2 * ?r" | "2 * ?r = b" by linarith
  then show ?thesis
  proof cases
    case 1
    then have "real ?r / real b \<le> 1 / 2" using b by (simp add: field_simps)
    moreover have "0 \<le> real ?r / real b" by simp
    moreover have "round_half_even a b = ?q"
      using 1 by (simp add: round_half_even_def Let_def)
    ultimately show ?thesis using d by simp
  next
    case 2
    then have "1 / 2 \<le> real ?r / real b" using b by (simp add: field_simps)
    moreover have "real ?r / real b \<le> 1" using r b by (simp add: field_simps)
    moreover have "round_half_even a b = ?q + 1"
      using 2 by (simp add: round_half_even_def Let_def)
    ultimately show ?thesis using d by simp
  next
    case 3
    then have "real b = 2 * real ?r" by (metis of_nat_mult of_nat_numeral)
    then have h: "real ?r / real b = 1 / 2" using b by simp
    have "round_half_even a b = ?q \<or> round_half_even a b = ?q + 1"
      using 3 by (simp add: round_half_even_def Let_def)
    then show ?thesis using d h by auto
  qed
qed

lemma div_1000_0: "div_1000 0 = 0"
  by (simp add: div_1000_def normalise.simps round_half_even_def)

lemma div_1000_45000: "div_1000 45000 = 45"
  by (simp add: div_1000_def normalise.simps round_half_even_def)

lemma div_1000_100: "div_1000 100 = 3602879701896397 / 2 ^ 55"
  by (simp add: div_1000_def normalise.simps round_half_even_def)

text \<open>
  The result of \<open>div_1000\<close> on a 32-bit integer other than 0 is a double: a significand
  \<open>m\<close> of 53 bits at a scale \<open>2 ^ k\<close>; and it is within half a unit of the last place of
  the quotient.
\<close>

lemma div_1000_nearest:
  assumes "v \<noteq> 0" and "INT_MIN \<le> v" and "v \<le> INT_MAX"
  shows "\<exists>m k. 2 ^ 52 \<le> m \<and> m \<le> 2 ^ 53 \<and> \<bar>div_1000 v\<bar> = real m / 2 ^ k \<and>
    \<bar>div_1000 v - real_of_int v / 1000\<bar> \<le> 1 / 2 ^ (k + 1)"
proof -
  let ?n = "nat \<bar>v\<bar>"
  obtain a k where nk: "normalise ?n 0 = (a, k)" by (cases "normalise ?n 0")
  let ?m = "round_half_even a 1000"
  have n0: "0 < ?n" using assms(1) by simp
  have "\<bar>v\<bar> \<le> 2147483648" using assms(2,3) by (simp add: INT_MIN_def INT_MAX_def)
  then have "?n \<le> 2147483648" by linarith
  then have n1: "?n < 1000 * 2 ^ 53" by simp
  have a: "a = ?n * 2 ^ k" using normalise_scaled [OF nk] by simp
  have lo: "1000 * 2 ^ 52 \<le> a" and hi: "a < 1000 * 2 ^ 53"
    using normalise_range [OF nk n0 n1] by simp_all
  have near: "\<bar>real ?m - real a / 1000\<bar> \<le> 1 / 2"
    using round_half_even_near [of 1000 a] by simp
  have "2 ^ 52 \<le> real a / 1000"
  proof -
    have "real (1000 * 2 ^ 52) \<le> real a" using lo by (rule iffD2 [OF of_nat_le_iff])
    then show ?thesis by simp
  qed
  with near have "2 ^ 52 - 1 / 2 \<le> real ?m" by linarith
  then have "real (2 ^ 52 - 1) < real ?m" by simp
  then have "2 ^ 52 - 1 < ?m" by (rule iffD1 [OF of_nat_less_iff])
  then have m_lo: "2 ^ 52 \<le> ?m" by simp
  have "real a / 1000 < 2 ^ 53"
  proof -
    have "real a < real (1000 * 2 ^ 53)" using hi by (rule iffD2 [OF of_nat_less_iff])
    then show ?thesis by simp
  qed
  with near have "real ?m < 2 ^ 53 + 1" by linarith
  then have "real ?m < real (2 ^ 53 + 1)" by simp
  then have "?m < 2 ^ 53 + 1" by (rule iffD1 [OF of_nat_less_iff])
  then have m_hi: "?m \<le> 2 ^ 53" by simp
  let ?s = "if v < 0 then - 1 else 1 :: real"
  have d: "div_1000 v = ?s * real ?m / 2 ^ k" by (simp add: div_1000_def nk)
  have abs: "\<bar>div_1000 v\<bar> = real ?m / 2 ^ k" by (simp add: d abs_mult)
  have q: "real_of_int v / 1000 = ?s * (real a / 1000) / 2 ^ k"
    using a by (simp add: abs_if)
  have "div_1000 v - real_of_int v / 1000 = ?s * ((real ?m - real a / 1000) / 2 ^ k)"
    by (simp add: d q field_simps)
  then have "\<bar>div_1000 v - real_of_int v / 1000\<bar> = \<bar>real ?m - real a / 1000\<bar> / 2 ^ k"
    by (simp add: abs_mult)
  also have "\<dots> \<le> (1 / 2) / 2 ^ k" using near by (rule divide_right_mono) simp
  finally have "\<bar>div_1000 v - real_of_int v / 1000\<bar> \<le> 1 / 2 ^ (k + 1)" by simp
  with m_lo m_hi abs show ?thesis by blast
qed

text \<open>
  C9, as the claim states it, fails. A file that opens but from which nothing can be
  read is an I/O error while reading the source; the result is 0.0, not the failed-read
  marker.
\<close>

theorem read_error_not_marked_counterexample:
  "spec_io_error (unreadable_file ''A'') \<and>
   read_temp_degC unreadable_file ''A'' = Fin 0 \<and>
   read_temp_degC unreadable_file ''A'' \<noteq> NaN"
  by (simp add: read_temp_degC_def unreadable_file_def div_1000_0)

text \<open>
  C9, amended. The result is the failed-read marker exactly when the file does not open.
  When the file opens and an integer \<open>n\<close> in the range of \<^verbatim>\<open>int\<close> is read from it, the
  result is \<open>n\<close> divided by 1000 as doubles divide: 0 for 0, and otherwise a double (a
  significand of 53 bits at some scale) within half a unit of its last place of the
  quotient \<open>n / 1000\<close>.
\<close>

theorem read_temp_degC_result:
  "(read_temp_degC files path = NaN \<longleftrightarrow> files path = CannotOpen) \<and>
   (files path = Digits n \<and> INT_MIN \<le> n \<and> n \<le> INT_MAX \<longrightarrow>
      read_temp_degC files path = Fin (div_1000 n) \<and>
      (n = 0 \<longrightarrow> div_1000 n = 0) \<and>
      (n \<noteq> 0 \<longrightarrow>
         (\<exists>m k. 2 ^ 52 \<le> m \<and> m \<le> 2 ^ 53 \<and> \<bar>div_1000 n\<bar> = real m / 2 ^ k \<and>
            \<bar>div_1000 n - real_of_int n / 1000\<bar> \<le> 1 / 2 ^ (k + 1))))"
proof -
  have a: "read_temp_degC files path = NaN \<longleftrightarrow> files path = CannotOpen"
    by (simp add: read_temp_degC_def)
  have b: "read_temp_degC files path = Fin (div_1000 n)"
    if "files path = Digits n" and "INT_MIN \<le> n" and "n \<le> INT_MAX"
    using that by (simp add: read_temp_degC_def)
  have c: "n = 0 \<longrightarrow> div_1000 n = 0" by (simp add: div_1000_0)
  have d: "\<exists>m k. 2 ^ 52 \<le> m \<and> m \<le> 2 ^ 53 \<and> \<bar>div_1000 n\<bar> = real m / 2 ^ k \<and>
            \<bar>div_1000 n - real_of_int n / 1000\<bar> \<le> 1 / 2 ^ (k + 1)"
    if "n \<noteq> 0" and "INT_MIN \<le> n" and "n \<le> INT_MAX"
    using that by (rule div_1000_nearest)
  from a b c d show ?thesis by blast
qed

theorem read_temp_degC_result_witness:
  "read_temp_degC no_file ''A'' = NaN \<and>
   file_100 ''A'' = Digits 100 \<and> INT_MIN \<le> 100 \<and> 100 \<le> INT_MAX \<and>
   read_temp_degC file_100 ''A'' = Fin (3602879701896397 / 2 ^ 55) \<and>
   read_temp_degC (files_at stopping 0) ''A'' = Fin 45"
proof -
  have a: "read_temp_degC no_file ''A'' = NaN"
    using read_temp_degC_result [of no_file "''A''" 0] by (simp add: no_file_def)
  have f: "file_100 ''A'' = Digits 100" by (simp add: file_100_def)
  have r: "INT_MIN \<le> 100" "100 \<le> INT_MAX" by (simp_all add: INT_MIN_def INT_MAX_def)
  have b: "read_temp_degC file_100 ''A'' = Fin (3602879701896397 / 2 ^ 55)"
    using read_temp_degC_result [of file_100 "''A''" 100] f r by (simp add: div_1000_100)
  have g: "files_at stopping 0 ''A'' = Digits 45000" by (simp add: stopping_def)
  have c: "read_temp_degC (files_at stopping 0) ''A'' = Fin 45"
    using read_temp_degC_result [of "files_at stopping 0" "''A''" 45000] g
    by (simp add: div_1000_45000 INT_MIN_def INT_MAX_def)
  from a f r b c show ?thesis by blast
qed

subsection \<open>The control loop: results\<close>

lemma keep_running_mono:
  "keep_running e t = 0 \<Longrightarrow> t \<le> t' \<Longrightarrow> keep_running e t' = 0"
  by (auto simp: keep_running_def split: option.splits if_splits)

lemma keep_running_signalled:
  "signal_at e = Some s \<Longrightarrow> s \<le> t \<Longrightarrow> keep_running e t = 0"
  by (simp add: keep_running_def)

lemma sleep_loop_stopped:
  "keep_running e (clock w) = 0 \<Longrightarrow> sleep_loop e c w = w\<lparr>clock := Suc (clock w)\<rparr>"
  by (simp add: sleep_loop.simps)

lemma clock_sleep_loop: "clock w < clock (sleep_loop e c w)"
proof (induction e c w rule: sleep_loop.induct)
  case (1 e c w)
  show ?case
  proof (cases "keep_running e (clock w) = 1 \<and> c < 10")
    case True
    with 1 show ?thesis by (subst sleep_loop.simps) auto
  next
    case False
    then show ?thesis by (subst sleep_loop.simps) auto
  qed
qed

lemma pin_body_events:
  "pin_body t sd p lv = (p', lv', evs) \<Longrightarrow>
   Sleep200ms \<notin> set evs \<and> filter is_temp_read evs = []"
  by (auto simp: pin_body_def Let_def split: option.splits if_splits)

lemma pin_iter_world:
  "pin_iter e p w = (p', w') \<Longrightarrow>
   clock w' = clock w + 2 \<and>
   (\<exists>evs. trace w' = trace w @ TempRead (temp_degC_source p) # evs \<and>
      Sleep200ms \<notin> set evs \<and> filter is_temp_read evs = [])"
  by (auto simp: pin_iter_def Let_def split: prod.splits dest: pin_body_events)

lemma pin_iter_shutting_down:
  assumes "keep_running e (clock w) = 0"
  shows "pin_iter e p w =
     (case pin_body (read_temp_degC (files_at e (clock w)) (temp_degC_source p)) True p
             (pin_levels w) of
        (p', lv, evs) \<Rightarrow>
          (p', \<lparr>pin_levels = lv,
                trace = trace w @ TempRead (temp_degC_source p) # evs,
                clock = clock w + 2\<rparr>))"
proof -
  have "keep_running e (Suc (clock w)) = 0"
    using assms keep_running_mono [of e "clock w" "Suc (clock w)"] by simp
  then show ?thesis by (simp add: pin_iter_def)
qed

lemma for_pins_world:
  "for_pins e ps w = (ps', w') \<Longrightarrow>
   clock w' = clock w + 2 * length ps \<and> length ps' = length ps \<and>
   (\<exists>evs. trace w' = trace w @ evs \<and> Sleep200ms \<notin> set evs \<and>
      filter is_temp_read evs = map (\<lambda>p. TempRead (temp_degC_source p)) ps)"
proof (induction ps arbitrary: w ps' w')
  case Nil
  then show ?case by simp
next
  case (Cons p ps)
  obtain p1 w1 where h1: "pin_iter e p w = (p1, w1)" by (cases "pin_iter e p w")
  obtain ps2 w2 where h2: "for_pins e ps w1 = (ps2, w2)" by (cases "for_pins e ps w1")
  from Cons.prems h1 h2 have eq: "ps' = p1 # ps2" "w' = w2" by simp_all
  from pin_iter_world [OF h1] obtain evs1 where
    c1: "clock w1 = clock w + 2" and
    t1: "trace w1 = trace w @ TempRead (temp_degC_source p) # evs1" and
    s1: "Sleep200ms \<notin> set evs1" and f1: "filter is_temp_read evs1 = []" by blast
  from Cons.IH [OF h2] obtain evs2 where
    c2: "clock w2 = clock w1 + 2 * length ps" and l2: "length ps2 = length ps" and
    t2: "trace w2 = trace w1 @ evs2" and
    s2: "Sleep200ms \<notin> set evs2" and
    f2: "filter is_temp_read evs2 = map (\<lambda>p. TempRead (temp_degC_source p)) ps" by blast
  have "trace w' = trace w @ (TempRead (temp_degC_source p) # evs1 @ evs2)"
    using t1 t2 eq by simp
  moreover have "Sleep200ms \<notin> set (TempRead (temp_degC_source p) # evs1 @ evs2)"
    using s1 s2 by simp
  moreover have "filter is_temp_read (TempRead (temp_degC_source p) # evs1 @ evs2) =
      map (\<lambda>p. TempRead (temp_degC_source p)) (p # ps)"
    using f1 f2 by simp
  ultimately show ?case using c1 c2 l2 eq by auto
qed

lemma do_loop_break:
  assumes "keep_running e (clock w) = 0"
    and "for_pins e pins (w\<lparr>clock := Suc (clock w)\<rparr>) = (pins', w')"
  shows "do_loop (Suc n) e pins w = Some (pins', w'\<lparr>clock := Suc (clock w')\<rparr>)"
proof -
  have "clock w \<le> clock w'" using for_pins_world [OF assms(2)] by simp
  then have "keep_running e (clock w') = 0" using assms(1) keep_running_mono by blast
  then show ?thesis using assms by (simp add: sleep_loop_stopped)
qed

lemma do_loop_returns:
  "signal_at e = Some s \<Longrightarrow> s \<le> clock w + n \<Longrightarrow> \<exists>r. do_loop (Suc n) e pins w = Some r"
proof (induction n arbitrary: pins w)
  case 0
  then have "keep_running e (clock w) = 0" by (simp add: keep_running_signalled)
  then show ?case by (simp split: prod.splits)
next
  case (Suc n)
  obtain pins' w' where h: "for_pins e pins (w\<lparr>clock := Suc (clock w)\<rparr>) = (pins', w')"
    by (cases "for_pins e pins (w\<lparr>clock := Suc (clock w)\<rparr>)")
  have "clock w < clock w'" using for_pins_world [OF h] by simp
  also have "clock w' < clock (sleep_loop e 0 w')" by (rule clock_sleep_loop)
  finally have "s \<le> clock (sleep_loop e 0 w') + n" using Suc.prems(2) by simp
  from Suc.IH [OF Suc.prems(1) this]
  obtain r where "do_loop (Suc n) e pins' (sleep_loop e 0 w') = Some r" by blast
  then show ?case using h by (cases "keep_running e (clock w) = 0") simp_all
qed

lemma run_loop_status:
  "run_loop fuel e pins w = Some (c, evs) \<Longrightarrow> c = 0"
  by (auto simp: run_loop_def split: option.splits prod.splits)

lemma sleep_loop_cut:
  assumes "\<forall>i<j. keep_running e (clock w + 2 * i) = 1"
    and "c + j \<le> 10"
    and "c + j < 10 \<longrightarrow> keep_running e (clock w + 2 * j) = 0"
  shows "sleep_loop e c w =
     w\<lparr>trace := trace w @ replicate j Sleep200ms, clock := clock w + 2 * j + 1\<rparr>"
  using assms
proof (induction j arbitrary: c w)
  case 0
  then have "\<not> (keep_running e (clock w) = 1 \<and> c < 10)" by auto
  then show ?case by (subst sleep_loop.simps) auto
next
  case (Suc j)
  let ?w = "w\<lparr>trace := trace w @ [Sleep200ms], clock := clock w + 2\<rparr>"
  from Suc.prems(1) have first: "keep_running e (clock w) = 1" by auto
  from Suc.prems(2) have c: "c < 10" by simp
  have "\<forall>i<j. keep_running e (clock ?w + 2 * i) = 1"
  proof (intro allI impI)
    fix i assume "i < j"
    then have "keep_running e (clock w + 2 * Suc i) = 1" using Suc.prems(1) by auto
    then show "keep_running e (clock ?w + 2 * i) = 1" by (simp add: add.commute add.left_commute)
  qed
  moreover have "Suc c + j \<le> 10" using Suc.prems(2) by simp
  moreover have "Suc c + j < 10 \<longrightarrow> keep_running e (clock ?w + 2 * j) = 0"
    using Suc.prems(3) by (simp add: add.commute add.left_commute)
  ultimately have "sleep_loop e (Suc c) ?w =
      ?w\<lparr>trace := trace ?w @ replicate j Sleep200ms, clock := clock ?w + 2 * j + 1\<rparr>"
    by (rule Suc.IH)
  moreover have "sleep_loop e c w = sleep_loop e (Suc c) ?w"
    using first c by (subst sleep_loop.simps) simp
  ultimately show ?case by (simp add: replicate_app_Cons_same)
qed

lemma for_pins_shutting_down:
  "keep_running e (clock w) = 0 \<Longrightarrow> for_pins e ps w = tick_shutting_down (files_at e) ps w"
proof (induction ps arbitrary: w)
  case Nil
  show ?case by simp
next
  case (Cons p ps)
  obtain p' lv evs where pb:
    "pin_body (read_temp_degC (files_at e (clock w)) (temp_degC_source p)) True p (pin_levels w)
       = (p', lv, evs)"
    by (cases "pin_body (read_temp_degC (files_at e (clock w)) (temp_degC_source p)) True p
                 (pin_levels w)")
  let ?w = "\<lparr>pin_levels = lv, trace = trace w @ TempRead (temp_degC_source p) # evs,
             clock = clock w + 2\<rparr>"
  have it: "pin_iter e p w = (p', ?w)"
    using pin_iter_shutting_down [OF Cons.prems, of p] pb by simp
  have "keep_running e (clock ?w) = 0"
    using Cons.prems keep_running_mono [of e "clock w" "clock ?w"] by simp
  then have "for_pins e ps ?w = tick_shutting_down (files_at e) ps ?w" by (rule Cons.IH)
  then show ?case using it pb by (simp split: prod.splits)
qed

lemma tick_shutting_down_world:
  "\<exists>evs. trace (snd (tick_shutting_down fs ps w)) = trace w @ evs \<and>
     Sleep200ms \<notin> set evs \<and>
     filter is_temp_read evs = map (\<lambda>p. TempRead (temp_degC_source p)) ps \<and>
     length (fst (tick_shutting_down fs ps w)) = length ps"
proof -
  let ?e = "\<lparr>signal_at = Some 0, files_at = fs\<rparr>"
  have "keep_running ?e (clock w) = 0" by (simp add: keep_running_def)
  then have eq: "for_pins ?e ps w = tick_shutting_down fs ps w"
    using for_pins_shutting_down [of ?e w ps] by simp
  obtain ps' w' where r: "for_pins ?e ps w = (ps', w')" by (cases "for_pins ?e ps w")
  from for_pins_world [OF r] r eq show ?thesis by auto
qed

lemma do_loop_last:
  assumes "keep_running e (clock w) = 0"
  shows "do_loop (Suc n) e pins w =
     Some (fst (tick_shutting_down (files_at e) pins (w\<lparr>clock := Suc (clock w)\<rparr>)),
           (snd (tick_shutting_down (files_at e) pins (w\<lparr>clock := Suc (clock w)\<rparr>)))
             \<lparr>clock := Suc (clock (snd (tick_shutting_down (files_at e) pins
                                         (w\<lparr>clock := Suc (clock w)\<rparr>))))\<rparr>)"
proof -
  let ?w = "w\<lparr>clock := Suc (clock w)\<rparr>"
  have "keep_running e (clock ?w) = 0"
    using assms keep_running_mono [of e "clock w" "clock ?w"] by simp
  then have eq: "for_pins e pins ?w = tick_shutting_down (files_at e) pins ?w"
    by (rule for_pins_shutting_down)
  obtain pins' w' where r: "for_pins e pins ?w = (pins', w')" by (cases "for_pins e pins ?w")
  from do_loop_break [OF assms r, of n] r eq show ?thesis by simp
qed

text \<open>
  C7. Two places where the flag can first be read as 0 by the loop.

  At line 133: then this iteration is the last. The program ends with status 0, and its
  events from there on are those of one full tick with shutting down true and the line
  that reports the stop.

  After line 133 of an iteration has read 1: the iteration makes its pass over the pins
  (where the pins from some pin on may already read the flag as 0), and its wait sleeps
  \<open>j\<close> times, the flag reading 1 before each sleep, and then ends: because the flag
  reads 0 before sleep \<open>j + 1\<close>, or because ten sleeps are done and the flag reads 0 at
  line 133. Then the wait is not continued, the next iteration is the last, and the
  events after the \<open>j\<close> sleeps are those of one full tick with shutting down true and the
  line that reports the stop; the status is 0.

  In both cases more fuel changes nothing: no further tick runs. A full tick with
  shutting down true reads the temperature of every configured pin once, in order, keeps
  the number of pins and sleeps nowhere.
\<close>

theorem signal_then_one_final_tick:
  "(keep_running e (clock w) = 0 \<longrightarrow>
      run_loop (Suc n) e pins w =
        Some (0, trace (snd (tick_shutting_down (files_at e) pins
                               (w\<lparr>clock := Suc (clock w)\<rparr>))) @ [LogStopped])) \<and>
   (keep_running e (clock w) = 1 \<and>
    for_pins e pins (w\<lparr>clock := Suc (clock w)\<rparr>) = (pins1, w1) \<and>
    j \<le> 10 \<and> (\<forall>i<j. keep_running e (clock w1 + 2 * i) = 1) \<and>
    (j < 10 \<longrightarrow> keep_running e (clock w1 + 2 * j) = 0) \<and>
    keep_running e (clock w1 + 2 * j + 1) = 0 \<longrightarrow>
      run_loop (Suc (Suc n)) e pins w =
        Some (0, trace (snd (tick_shutting_down (files_at e) pins1
                               (w1\<lparr>trace := trace w1 @ replicate j Sleep200ms,
                                   clock := clock w1 + 2 * j + 2\<rparr>))) @ [LogStopped])) \<and>
   (\<exists>evs. trace (snd (tick_shutting_down fs ps w0)) = trace w0 @ evs \<and>
      Sleep200ms \<notin> set evs \<and>
      filter is_temp_read evs = map (\<lambda>p. TempRead (temp_degC_source p)) ps \<and>
      length (fst (tick_shutting_down fs ps w0)) = length ps)"
proof -
  have a: "run_loop (Suc n) e pins w =
        Some (0, trace (snd (tick_shutting_down (files_at e) pins
                               (w\<lparr>clock := Suc (clock w)\<rparr>))) @ [LogStopped])"
    if "keep_running e (clock w) = 0"
    using do_loop_last [OF that, of n pins] by (simp add: run_loop_def)
  have b: "run_loop (Suc (Suc n)) e pins w =
        Some (0, trace (snd (tick_shutting_down (files_at e) pins1
                               (w1\<lparr>trace := trace w1 @ replicate j Sleep200ms,
                                   clock := clock w1 + 2 * j + 2\<rparr>))) @ [LogStopped])"
    if top: "keep_running e (clock w) = 1"
      and pass: "for_pins e pins (w\<lparr>clock := Suc (clock w)\<rparr>) = (pins1, w1)"
      and j: "j \<le> 10" and sleeps: "\<forall>i<j. keep_running e (clock w1 + 2 * i) = 1"
      and cut: "j < 10 \<longrightarrow> keep_running e (clock w1 + 2 * j) = 0"
      and next_top: "keep_running e (clock w1 + 2 * j + 1) = 0"
  proof -
    let ?w2 = "w1\<lparr>trace := trace w1 @ replicate j Sleep200ms, clock := clock w1 + 2 * j + 1\<rparr>"
    have wait: "sleep_loop e 0 w1 = ?w2"
      using sleeps j cut by (intro sleep_loop_cut) simp_all
    have step: "do_loop (Suc (Suc n)) e pins w = do_loop (Suc n) e pins1 ?w2"
      using top pass wait by (subst do_loop.simps) simp
    have flag: "keep_running e (clock ?w2) = 0" using next_top by simp
    have w3: "?w2\<lparr>clock := Suc (clock ?w2)\<rparr> =
        w1\<lparr>trace := trace w1 @ replicate j Sleep200ms, clock := clock w1 + 2 * j + 2\<rparr>"
      by simp
    show ?thesis
      using do_loop_last [OF flag, of n pins1] step by (simp add: run_loop_def w3)
  qed
  from a b tick_shutting_down_world [of fs ps w0] show ?thesis by blast
qed

lemma parse_terminate_pin8:
  "parse_pin terminate_pin8 =
     \<lparr>wpi_pin_number = 8, output_value = False, condition = ''>'',
      active_on_terminate = True, condition_temp_degC = Fin 50,
      temp_degC_source = ''B'', last_read_temp_degC = Fin 0\<rparr>"
  by (simp add: parse_pin_def terminate_pin8_def)

lemma read_45000: "read_temp_degC (\<lambda>path. Digits 45000) src = Fin 45"
  by (simp add: read_temp_degC_def INT_MAX_def INT_MIN_def div_1000_45000)

lemma signal_in_wait_pass:
  "for_pins signal_in_wait [parse_pin terminate_pin, parse_pin terminate_pin8]
     (start_high\<lparr>clock := Suc (clock start_high)\<rparr>) =
     ([(parse_pin terminate_pin)\<lparr>last_read_temp_degC := Fin 45\<rparr>,
       (parse_pin terminate_pin8)\<lparr>last_read_temp_degC := Fin 45\<rparr>],
      \<lparr>pin_levels = all_high, trace = [TempRead ''A'', TempRead ''B''], clock = 5\<rparr>)"
  by (simp add: pin_iter_def pin_body_def parse_terminate_pin parse_terminate_pin8
        TEMPR_COMP_OPS_gt read_45000 keep_running_def signal_in_wait_def start_high_def
        ld_ne_def ld_gt_def Let_def)

lemma signal_in_wait_final:
  "tick_shutting_down (files_at signal_in_wait)
     [(parse_pin terminate_pin)\<lparr>last_read_temp_degC := Fin 45\<rparr>,
      (parse_pin terminate_pin8)\<lparr>last_read_temp_degC := Fin 45\<rparr>]
     \<lparr>pin_levels = all_high, trace = [TempRead ''A'', TempRead ''B'', Sleep200ms], clock = 9\<rparr> =
     ([(parse_pin terminate_pin)\<lparr>last_read_temp_degC := Fin 45\<rparr>,
       (parse_pin terminate_pin8)\<lparr>last_read_temp_degC := Fin 45\<rparr>],
      \<lparr>pin_levels = all_high(7 := 0, 8 := 0),
       trace = [TempRead ''A'', TempRead ''B'', Sleep200ms,
                TempRead ''A'', PinMode 7, DigitalRead 7, DigitalWrite 7 0,
                LogChange (Fin 45) ''>'' (Fin 50) 7 0 True,
                TempRead ''B'', PinMode 8, DigitalRead 8, DigitalWrite 8 0,
                LogChange (Fin 45) ''>'' (Fin 50) 8 0 True],
       clock = 13\<rparr>)"
  by (simp add: pin_body_def parse_terminate_pin parse_terminate_pin8
        TEMPR_COMP_OPS_gt read_45000 signal_in_wait_def all_high_apply Let_def)

theorem signal_then_one_final_tick_witness:
  "keep_running signal_in_wait (clock start_high) = 1 \<and>
   keep_running signal_in_wait 5 = 1 \<and> keep_running signal_in_wait 7 = 0 \<and>
   run_loop 2 signal_in_wait [parse_pin terminate_pin, parse_pin terminate_pin8] start_high =
     Some (0, [TempRead ''A'', TempRead ''B'', Sleep200ms,
               TempRead ''A'', PinMode 7, DigitalRead 7, DigitalWrite 7 0,
               LogChange (Fin 45) ''>'' (Fin 50) 7 0 True,
               TempRead ''B'', PinMode 8, DigitalRead 8, DigitalWrite 8 0,
               LogChange (Fin 45) ''>'' (Fin 50) 8 0 True,
               LogStopped])"
proof -
  let ?pins = "[parse_pin terminate_pin, parse_pin terminate_pin8]"
  let ?pins1 = "[(parse_pin terminate_pin)\<lparr>last_read_temp_degC := Fin 45\<rparr>,
                 (parse_pin terminate_pin8)\<lparr>last_read_temp_degC := Fin 45\<rparr>]"
  let ?w1 = "\<lparr>pin_levels = all_high, trace = [TempRead ''A'', TempRead ''B''], clock = 5\<rparr>"
  have top: "keep_running signal_in_wait (clock start_high) = 1"
    by (simp add: keep_running_def signal_in_wait_def start_high_def)
  have k5: "keep_running signal_in_wait 5 = 1" and k7: "keep_running signal_in_wait 7 = 0"
    and k8: "keep_running signal_in_wait 8 = 0"
    by (simp_all add: keep_running_def signal_in_wait_def)
  have sleeps: "\<forall>i<Suc 0. keep_running signal_in_wait (clock ?w1 + 2 * i) = 1"
    using k5 by simp
  have cut: "Suc 0 < 10 \<longrightarrow> keep_running signal_in_wait (clock ?w1 + 2 * Suc 0) = 0"
    using k7 by simp
  have next_top: "keep_running signal_in_wait (clock ?w1 + 2 * Suc 0 + 1) = 0"
    using k8 by simp
  have "run_loop (Suc (Suc 0)) signal_in_wait ?pins start_high =
      Some (0, trace (snd (tick_shutting_down (files_at signal_in_wait) ?pins1
                             (?w1\<lparr>trace := trace ?w1 @ replicate (Suc 0) Sleep200ms,
                                  clock := clock ?w1 + 2 * Suc 0 + 2\<rparr>))) @ [LogStopped])"
  proof (rule signal_then_one_final_tick [THEN conjunct2, THEN conjunct1, THEN mp])
    show "keep_running signal_in_wait (clock start_high) = 1 \<and>
      for_pins signal_in_wait ?pins (start_high\<lparr>clock := Suc (clock start_high)\<rparr>)
        = (?pins1, ?w1) \<and>
      Suc 0 \<le> 10 \<and> (\<forall>i<Suc 0. keep_running signal_in_wait (clock ?w1 + 2 * i) = 1) \<and>
      (Suc 0 < 10 \<longrightarrow> keep_running signal_in_wait (clock ?w1 + 2 * Suc 0) = 0) \<and>
      keep_running signal_in_wait (clock ?w1 + 2 * Suc 0 + 1) = 0"
      by (intro conjI top signal_in_wait_pass sleeps cut next_top) simp
  qed
  then have "run_loop 2 signal_in_wait ?pins start_high =
     Some (0, [TempRead ''A'', TempRead ''B'', Sleep200ms,
               TempRead ''A'', PinMode 7, DigitalRead 7, DigitalWrite 7 0,
               LogChange (Fin 45) ''>'' (Fin 50) 7 0 True,
               TempRead ''B'', PinMode 8, DigitalRead 8, DigitalWrite 8 0,
               LogChange (Fin 45) ''>'' (Fin 50) 8 0 True,
               LogStopped])"
    by (simp del: tick_shutting_down.simps add: signal_in_wait_final numeral_2_eq_2)
  with top k5 k7 show ?thesis by blast
qed

text \<open>
  C8. When the configuration file does not open the program ends with status 1, and when
  it holds no pin with status 2; in both cases its only events are the line that reports
  the start and the line that reports the error (no hardware set-up, no read, no write,
  no temperature read, no sleep). With at least one pin, a run in which the signal comes
  ends (given the fuel for it) and every run that ends has status 0.
\<close>

theorem main_exit_status:
  "main fuel e None lv = Some (1, [LogStarted, LogCannotOpenConfig]) \<and>
   main fuel e (Some []) lv = Some (2, [LogStarted, LogNoConditions]) \<and>
   (d \<noteq> [] \<and> signal_at e = Some s \<and> s < fuel \<longrightarrow>
      (\<exists>evs. main fuel e (Some d) lv = Some (0, evs))) \<and>
   (d \<noteq> [] \<and> main fuel e (Some d) lv = Some (c, evs) \<longrightarrow> c = 0)"
proof -
  have a: "main fuel e None lv = Some (1, [LogStarted, LogCannotOpenConfig])"
    by (simp add: main_def)
  have b: "main fuel e (Some []) lv = Some (2, [LogStarted, LogNoConditions])"
    by (simp add: main_def parse_config_def)
  have c: "\<exists>evs. main fuel e (Some d) lv = Some (0, evs)"
    if nonempty: "d \<noteq> []" and sig: "signal_at e = Some s" and fuel: "s < fuel"
  proof -
    obtain n where n: "fuel = Suc n" using fuel by (cases fuel) auto
    let ?w = "\<lparr>pin_levels = lv,
               trace = [LogStarted, WiringPiSetup] @
                       map (\<lambda>p. PinMode (wpi_pin_number p)) (parse_config d),
               clock = 0\<rparr>"
    have "s \<le> clock ?w + n" using fuel n by simp
    from do_loop_returns [OF sig this]
    obtain r where "do_loop (Suc n) e (parse_config d) ?w = Some r" by blast
    then show ?thesis using nonempty n
      by (cases r) (simp add: main_def run_loop_def parse_config_def)
  qed
  have d: "c = 0" if "d \<noteq> []" and "main fuel e (Some d) lv = Some (c, evs)"
    using that by (auto simp: main_def parse_config_def Let_def dest: run_loop_status)
  show ?thesis using a b c d by blast
qed

theorem main_exit_status_witness:
  "main 1 stopping None all_high = Some (1, [LogStarted, LogCannotOpenConfig]) \<and>
   main 1 stopping (Some []) all_high = Some (2, [LogStarted, LogNoConditions]) \<and>
   [terminate_pin] \<noteq> [] \<and> signal_at stopping = Some 0 \<and> (0::nat) < 1 \<and>
   (\<exists>evs. main 1 stopping (Some [terminate_pin]) all_high = Some (0, evs))"
proof -
  have s: "signal_at stopping = Some 0" by (simp add: stopping_def)
  show ?thesis
    using s main_exit_status [of 1 stopping all_high "[terminate_pin]" 0] by simp
qed

end
